theory Spec2Isabelle
  imports Complex_Main "HOL-Library.Monad_Syntax"
begin

section \<open>The minimal IPOPT example: minimize (x-2)^2 subject to x >= 0\<close>

text \<open>
  A shallow embedding of \<^verbatim>\<open>src/main.cpp\<close>: the class \<^verbatim>\<open>MinimalNLP\<close>, whose
  member functions are the callbacks the solver invokes, and \<^verbatim>\<open>main\<close>.

  \<^item> \<^verbatim>\<open>Number\<close> is the solver library's name for \<^verbatim>\<open>double\<close>. It is embedded as
    \<open>real\<close>: a double is read as the real number it denotes and \<^verbatim>\<open>-\<close>, \<^verbatim>\<open>*\<close> as
    the exact operations. Rounding, infinities and NaN are outside this model.
  \<^item> \<^verbatim>\<open>Index\<close> is the library's name for a machine \<^verbatim>\<open>int\<close>. The callbacks only
    assign the constants 0 and 1 to \<^verbatim>\<open>Index\<close> objects and never compute with
    them, so it is embedded as \<open>int\<close>.
  \<^item> The callbacks read and write buffers owned by the caller, through pointers and
    references. Memory is an explicit store, a list of typed cells; an address is a
    position in it, a pointer is an address or \<^verbatim>\<open>nullptr\<close> (\<open>None\<close>), and
    \<^verbatim>\<open>p[i]\<close> is the cell at \<open>a + i\<close> for \<open>p = Some a\<close>.
  \<^item> Reading or writing through \<^verbatim>\<open>nullptr\<close>, outside the store or at a cell of
    another type is undefined behaviour in C++. The embedding makes it a value: every
    callback returns \<open>None\<close> then, and \<open>Some (r, s')\<close> with the returned \<^verbatim>\<open>bool\<close>
    and the store after the call otherwise.
  \<^item> \<^verbatim>\<open>MinimalNLP\<close> declares no data member, so the store is the only state.
\<close>

subsection \<open>Values and the store\<close>

type_synonym Index = int

type_synonym Number = real

datatype IndexStyleEnum = C_STYLE | FORTRAN_STYLE

datatype cell = NumberCell Number | IndexCell Index | StyleCell IndexStyleEnum

type_synonym addr = nat

type_synonym ptr = "addr option"

type_synonym mem = "cell list"

definition load_Number :: "mem \<Rightarrow> ptr \<Rightarrow> nat \<Rightarrow> Number option" where
  "load_Number s p i =
     (case p of
        None \<Rightarrow> None
      | Some a \<Rightarrow>
          if a + i < length s
          then (case s ! (a + i) of NumberCell v \<Rightarrow> Some v | _ \<Rightarrow> None)
          else None)"

definition store_Number :: "ptr \<Rightarrow> nat \<Rightarrow> Number \<Rightarrow> mem \<Rightarrow> mem option" where
  "store_Number p i v s =
     (case p of
        None \<Rightarrow> None
      | Some a \<Rightarrow>
          if a + i < length s
          then (case s ! (a + i) of NumberCell _ \<Rightarrow> Some (s[a + i := NumberCell v]) | _ \<Rightarrow> None)
          else None)"

definition load_Index :: "mem \<Rightarrow> ptr \<Rightarrow> nat \<Rightarrow> Index option" where
  "load_Index s p i =
     (case p of
        None \<Rightarrow> None
      | Some a \<Rightarrow>
          if a + i < length s
          then (case s ! (a + i) of IndexCell v \<Rightarrow> Some v | _ \<Rightarrow> None)
          else None)"

definition store_Index :: "ptr \<Rightarrow> nat \<Rightarrow> Index \<Rightarrow> mem \<Rightarrow> mem option" where
  "store_Index p i v s =
     (case p of
        None \<Rightarrow> None
      | Some a \<Rightarrow>
          if a + i < length s
          then (case s ! (a + i) of IndexCell _ \<Rightarrow> Some (s[a + i := IndexCell v]) | _ \<Rightarrow> None)
          else None)"

definition load_Style :: "mem \<Rightarrow> addr \<Rightarrow> IndexStyleEnum option" where
  "load_Style s a =
     (if a < length s
      then (case s ! a of StyleCell v \<Rightarrow> Some v | _ \<Rightarrow> None)
      else None)"

definition store_Style :: "addr \<Rightarrow> IndexStyleEnum \<Rightarrow> mem \<Rightarrow> mem option" where
  "store_Style a v s =
     (if a < length s
      then (case s ! a of StyleCell _ \<Rightarrow> Some (s[a := StyleCell v]) | _ \<Rightarrow> None)
      else None)"

subsection \<open>The callbacks of MinimalNLP\<close>

text \<open>
  Each definition takes the parameters of the C++ member function in their order, then
  the store. A reference parameter (\<^verbatim>\<open>Index &n\<close>, \<^verbatim>\<open>Number &obj_value\<close>) is the
  address of its object; a pointer parameter is a \<open>ptr\<close>.
\<close>

definition get_nlp_info ::
  "addr \<Rightarrow> addr \<Rightarrow> addr \<Rightarrow> addr \<Rightarrow> addr \<Rightarrow> mem \<Rightarrow> (bool \<times> mem) option" where
  "get_nlp_info n m nnz_jac_g nnz_h_lag index_style s = do {
     s1 \<leftarrow> store_Index (Some n) 0 1 s;
     s2 \<leftarrow> store_Index (Some m) 0 0 s1;
     s3 \<leftarrow> store_Index (Some nnz_jac_g) 0 0 s2;
     s4 \<leftarrow> store_Index (Some nnz_h_lag) 0 1 s3;
     s5 \<leftarrow> store_Style index_style C_STYLE s4;
     Some (True, s5)
   }"

definition get_bounds_info ::
  "Index \<Rightarrow> ptr \<Rightarrow> ptr \<Rightarrow> Index \<Rightarrow> ptr \<Rightarrow> ptr \<Rightarrow> mem \<Rightarrow> (bool \<times> mem) option" where
  "get_bounds_info n x_l x_u m g_l g_u s = do {
     s1 \<leftarrow> store_Number x_l 0 0 s;
     s2 \<leftarrow> store_Number x_u 0 (10 ^ 19) s1;
     Some (True, s2)
   }"

definition get_starting_point ::
  "Index \<Rightarrow> bool \<Rightarrow> ptr \<Rightarrow> bool \<Rightarrow> ptr \<Rightarrow> ptr \<Rightarrow> Index \<Rightarrow> bool \<Rightarrow> ptr \<Rightarrow> mem
     \<Rightarrow> (bool \<times> mem) option" where
  "get_starting_point n init_x x init_z z_L z_U m init_lambda lambda s =
     (if init_x
      then do { s1 \<leftarrow> store_Number x 0 5 s; Some (True, s1) }
      else Some (True, s))"

definition eval_f :: "Index \<Rightarrow> ptr \<Rightarrow> bool \<Rightarrow> addr \<Rightarrow> mem \<Rightarrow> (bool \<times> mem) option" where
  "eval_f n x new_x obj_value s = do {
     a \<leftarrow> load_Number s x 0;
     b \<leftarrow> load_Number s x 0;
     s1 \<leftarrow> store_Number (Some obj_value) 0 ((a - 2) * (b - 2)) s;
     Some (True, s1)
   }"

definition eval_grad_f :: "Index \<Rightarrow> ptr \<Rightarrow> bool \<Rightarrow> ptr \<Rightarrow> mem \<Rightarrow> (bool \<times> mem) option" where
  "eval_grad_f n x new_x grad_f s = do {
     a \<leftarrow> load_Number s x 0;
     s1 \<leftarrow> store_Number grad_f 0 (2 * (a - 2)) s;
     Some (True, s1)
   }"

definition eval_g :: "Index \<Rightarrow> ptr \<Rightarrow> bool \<Rightarrow> Index \<Rightarrow> ptr \<Rightarrow> mem \<Rightarrow> (bool \<times> mem) option" where
  "eval_g n x new_x m g s = Some (True, s)"

definition eval_jac_g ::
  "Index \<Rightarrow> ptr \<Rightarrow> bool \<Rightarrow> Index \<Rightarrow> Index \<Rightarrow> ptr \<Rightarrow> ptr \<Rightarrow> ptr \<Rightarrow> mem \<Rightarrow> (bool \<times> mem) option" where
  "eval_jac_g n x new_x m nele_jac iRow jCol values s = Some (True, s)"

definition eval_h ::
  "Index \<Rightarrow> ptr \<Rightarrow> bool \<Rightarrow> Number \<Rightarrow> Index \<Rightarrow> ptr \<Rightarrow> bool \<Rightarrow> Index \<Rightarrow> ptr \<Rightarrow> ptr \<Rightarrow> ptr \<Rightarrow> mem
     \<Rightarrow> (bool \<times> mem) option" where
  "eval_h n x new_x obj_factor m lambda new_lambda nele_hess iRow jCol values s =
     (if values = None
      then do {
        s1 \<leftarrow> store_Index iRow 0 0 s;
        s2 \<leftarrow> store_Index jCol 0 0 s1;
        Some (True, s2)
      }
      else do {
        s1 \<leftarrow> store_Number values 0 (obj_factor * 2) s;
        Some (True, s1)
      })"

subsection \<open>Reading results back\<close>

text \<open>
  The function computed by \<open>eval_f\<close>: the value it leaves in \<^verbatim>\<open>obj_value\<close> when it is
  run on a store holding the one-entry iterate \<open>t\<close> at address 0 and the result object
  at address 1.
\<close>

definition objective :: "Number \<Rightarrow> Number" where
  "objective t =
     (case eval_f 1 (Some 0) True 1 [NumberCell t, NumberCell 0] of
        None \<Rightarrow> 0
      | Some (ok, s') \<Rightarrow> (case load_Number s' (Some 1) 0 of None \<Rightarrow> 0 | Some v \<Rightarrow> v))"

text \<open>
  The first \<open>k\<close> (row, column) pairs of a sparse structure held in the two index
  buffers \<^verbatim>\<open>iRow\<close> and \<^verbatim>\<open>jCol\<close>.
\<close>

fun read_pairs :: "mem \<Rightarrow> ptr \<Rightarrow> ptr \<Rightarrow> nat \<Rightarrow> (Index \<times> Index) list option" where
  "read_pairs s iRow jCol 0 = Some []"
| "read_pairs s iRow jCol (Suc k) = do {
     ps \<leftarrow> read_pairs s iRow jCol k;
     r \<leftarrow> load_Index s iRow k;
     c \<leftarrow> load_Index s jCol k;
     Some (ps @ [(r, c)])
   }"

subsection \<open>The program entry point\<close>

text \<open>
  \<^verbatim>\<open>main\<close> drives the external solver application. The solver is not part of the
  program: the status \<^verbatim>\<open>app->Initialize()\<close> returns and the status
  \<^verbatim>\<open>app->OptimizeTNLP(mynlp)\<close> returns (if it is called) are parameters. Of the
  library's \<^verbatim>\<open>ApplicationReturnStatus\<close> enumeration the program names only
  \<^verbatim>\<open>Solve_Succeeded\<close>; every other enumerator is \<open>Other_Status c\<close>, \<open>c\<close> its
  integer code. \<open>main\<close> returns the exit code and the trace of what it did, in order:
  what it wrote to \<^verbatim>\<open>std::cout\<close> and \<^verbatim>\<open>std::cerr\<close> (\<open>Stderr_Status\<close> is a status
  written as its integer code) and which calls it made to the application.
  \<^verbatim>\<open>finalize_solution\<close> is invoked by the solver inside \<^verbatim>\<open>OptimizeTNLP\<close> and only
  prints; it is not embedded.
\<close>

datatype ApplicationReturnStatus = Solve_Succeeded | Other_Status int

datatype event =
    Stdout string
  | Stderr string
  | Stderr_Status ApplicationReturnStatus
  | SetIntegerValue string int
  | SetStringValue string string
  | Initialize
  | OptimizeTNLP

definition main :: "ApplicationReturnStatus \<Rightarrow> ApplicationReturnStatus \<Rightarrow> int \<times> event list" where
  "main initialize_returns optimize_returns =
     (let t0 = [Stdout ''IPOPT Minimal Example'',
                Stdout ''Minimize: (x-2)^2'',
                Stdout ''Subject to: x >= 0'',
                Stdout ''Starting point: x = 5'',
                SetIntegerValue ''print_level'' 5,
                SetStringValue ''linear_solver'' ''mumps'',
                SetStringValue ''mu_strategy'' ''adaptive'',
                Initialize];
          status = initialize_returns
      in if status \<noteq> Solve_Succeeded
         then (1, t0 @ [Stderr ''IPOPT initialization failed!''])
         else
           (let t1 = t0 @ [OptimizeTNLP];
                status = optimize_returns
            in if status = Solve_Succeeded
               then (0, t1 @ [Stdout (CHR 0x0A # ''Optimization succeeded!'')])
               else (1, t1 @ [Stderr (CHR 0x0A # ''Optimization failed with status ''),
                               Stderr_Status status])))"

subsection \<open>The solver's side of the contract\<close>

text \<open>
  Modelled from the spec: the designated ``infinite'' sentinel. The solver reads a bound
  at or beyond it as no effective bound; it is a setting of the external library and
  does not occur in the program, so its value \<open>1e19\<close> is the one the spec names.
\<close>

definition nlp_upper_bound_inf :: Number where
  "nlp_upper_bound_inf = 10 ^ 19"

text \<open>
  The layout of a store: the type of each cell. A pointer is valid for a type where the
  layout has that type.
\<close>

datatype cell_type = Number_type | Index_type | Style_type

fun type_of_cell :: "cell \<Rightarrow> cell_type" where
  "type_of_cell (NumberCell v) = Number_type"
| "type_of_cell (IndexCell v) = Index_type"
| "type_of_cell (StyleCell v) = Style_type"

definition layout :: "mem \<Rightarrow> cell_type list" where
  "layout s = map type_of_cell s"

text \<open>
  What a call returned to the solver: \<open>Some b\<close> for the \<^verbatim>\<open>bool\<close> it returned,
  \<open>None\<close> where its behaviour is undefined.
\<close>

definition returned :: "(bool \<times> mem) option \<Rightarrow> bool option" where
  "returned r = map_option fst r"

text \<open>
  One solve: the solver invokes \<open>eval_h\<close> any number of times, with arguments of
  its choice, each call on the store the previous one left. \<open>solver_call\<close> is the
  solver's side of the two-mode protocol: a structure call (\<^verbatim>\<open>values\<close> null) is
  given the two index buffers of the solve, a values call a valid \<^verbatim>\<open>values\<close>
  buffer.
\<close>

datatype eval_h_call =
  Eval_h (arg_n: Index) (arg_x: ptr) (arg_new_x: bool) (arg_obj_factor: Number) (arg_m: Index)
    (arg_lambda: ptr) (arg_new_lambda: bool) (arg_nele_hess: Index)
    (arg_iRow: ptr) (arg_jCol: ptr) (arg_values: ptr)

fun call_eval_h :: "eval_h_call \<Rightarrow> mem \<Rightarrow> (bool \<times> mem) option" where
  "call_eval_h (Eval_h n x new_x obj_factor m lambda new_lambda nele_hess iRow jCol values) s =
     eval_h n x new_x obj_factor m lambda new_lambda nele_hess iRow jCol values s"

fun eval_h_calls :: "eval_h_call list \<Rightarrow> mem \<Rightarrow> mem option" where
  "eval_h_calls [] s = Some s"
| "eval_h_calls (c # cs) s =
     (case call_eval_h c s of None \<Rightarrow> None | Some (ok, s') \<Rightarrow> eval_h_calls cs s')"

definition solver_call :: "mem \<Rightarrow> addr \<Rightarrow> addr \<Rightarrow> eval_h_call \<Rightarrow> bool" where
  "solver_call s ir jc c =
     (if arg_values c = None
      then arg_iRow c = Some ir \<and> arg_jCol c = Some jc
      else load_Number s (arg_values c) 0 \<noteq> None)"

section \<open>Store lemmas\<close>

lemma store_Number_Some:
  "load_Number s (Some a) 0 = Some old \<Longrightarrow> store_Number (Some a) 0 v s = Some (s[a := NumberCell v])"
  by (auto simp: store_Number_def load_Number_def split: if_splits cell.splits)

lemma store_Index_Some:
  "load_Index s (Some a) 0 = Some old \<Longrightarrow> store_Index (Some a) 0 v s = Some (s[a := IndexCell v])"
  by (auto simp: store_Index_def load_Index_def split: if_splits cell.splits)

lemma load_Number_update_same:
  "load_Number s (Some a) 0 = Some old \<Longrightarrow> load_Number (s[a := NumberCell v]) (Some a) 0 = Some v"
  by (auto simp: load_Number_def split: if_splits cell.splits)

lemma nth_update:
  "(t[b := c]) ! a = (if a = b \<and> b < length t then c else t ! a)"
  by (cases "b < length t") (auto simp: nth_list_update list_update_beyond)

lemma store_Style_Some:
  "load_Style s a = Some old \<Longrightarrow> store_Style a v s = Some (s[a := StyleCell v])"
  by (auto simp: store_Style_def load_Style_def split: if_splits cell.splits)

lemma load_Style_update_other:
  "a \<noteq> b \<Longrightarrow> load_Style (s[b := c]) a = load_Style s a"
  by (simp add: load_Style_def)

lemma Style_not_Index:
  "load_Style s a = Some st \<Longrightarrow> load_Index s (Some b) 0 = Some v \<Longrightarrow> a \<noteq> b"
  by (auto simp: load_Style_def load_Index_def split: if_splits cell.splits)

lemma load_Number_layout:
  "load_Number s p i \<noteq> None \<longleftrightarrow>
     (\<exists>a. p = Some a \<and> a + i < length (layout s) \<and> layout s ! (a + i) = Number_type)"
  by (cases p; cases "s ! (the p + i)") (auto simp: load_Number_def layout_def)

lemma load_Index_layout:
  "load_Index s p i \<noteq> None \<longleftrightarrow>
     (\<exists>a. p = Some a \<and> a + i < length (layout s) \<and> layout s ! (a + i) = Index_type)"
  by (cases p; cases "s ! (the p + i)") (auto simp: load_Index_def layout_def)

lemma load_Style_layout:
  "load_Style s a \<noteq> None \<longleftrightarrow> a < length (layout s) \<and> layout s ! a = Style_type"
  by (cases "s ! a") (auto simp: load_Style_def layout_def)

lemma layout_update:
  "a < length s \<Longrightarrow> type_of_cell (s ! a) = type_of_cell c \<Longrightarrow> layout (s[a := c]) = layout s"
  by (simp add: layout_def map_update list_update_same_conv)

lemma store_Number_valid:
  assumes "load_Number s p 0 \<noteq> None"
  shows "\<exists>s'. store_Number p 0 v s = Some s' \<and> layout s' = layout s"
  using assms
  by (cases p; cases "s ! the p")
     (auto simp: load_Number_def store_Number_def layout_update split: if_splits)

lemma store_Index_valid:
  assumes "load_Index s p 0 \<noteq> None"
  shows "\<exists>s'. store_Index p 0 v s = Some s' \<and> layout s' = layout s"
  using assms
  by (cases p; cases "s ! the p")
     (auto simp: load_Index_def store_Index_def layout_update split: if_splits)

lemma store_Style_valid:
  assumes "load_Style s a \<noteq> None"
  shows "\<exists>s'. store_Style a v s = Some s' \<and> layout s' = layout s"
  using assms
  by (cases "s ! a")
     (auto simp: load_Style_def store_Style_def layout_update split: if_splits)

lemma valid_Number_layout:
  "load_Number s p i \<noteq> None \<Longrightarrow> layout s' = layout s \<Longrightarrow> load_Number s' p i \<noteq> None"
  by (simp only: load_Number_layout)

lemma valid_Index_layout:
  "load_Index s p i \<noteq> None \<Longrightarrow> layout s' = layout s \<Longrightarrow> load_Index s' p i \<noteq> None"
  by (simp only: load_Index_layout)

lemma valid_Style_layout:
  "load_Style s a \<noteq> None \<Longrightarrow> layout s' = layout s \<Longrightarrow> load_Style s' a \<noteq> None"
  by (simp only: load_Style_layout)

section \<open>The objective\<close>

lemma eval_f_result:
  assumes "load_Number s x 0 = Some x0"
    and "load_Number s (Some obj_value) 0 = Some old"
  shows "eval_f n x new_x obj_value s = Some (True, s[obj_value := NumberCell ((x0 - 2) * (x0 - 2))])"
  using assms by (simp add: eval_f_def store_Number_Some)

lemma objective_eq: "objective t = (t - 2) * (t - 2)"
  by (simp add: objective_def eval_f_def load_Number_def store_Number_def)



section \<open>The gradient\<close>

lemma eval_f_computes_objective:
  assumes "load_Number s x 0 = Some t"
    and "load_Number s (Some obj_value) 0 = Some old"
  shows "eval_f n x new_x obj_value s = Some (True, s[obj_value := NumberCell (objective t)])"
  using assms by (simp add: eval_f_result objective_eq)



lemma eval_grad_f_result:
  assumes "load_Number s x 0 = Some x0"
    and "load_Number s (Some g) 0 = Some old"
  shows "eval_grad_f n x new_x (Some g) s = Some (True, s[g := NumberCell (2 * (x0 - 2))])"
  using assms by (simp add: eval_grad_f_def store_Number_Some)



section \<open>The Hessian values\<close>

lemma eval_h_values_result:
  assumes "load_Number s (Some v) 0 = Some old"
  shows "eval_h n x new_x obj_factor m lambda new_lambda nele_hess iRow jCol (Some v) s
           = Some (True, s[v := NumberCell (obj_factor * 2)])"
  using assms by (simp add: eval_h_def store_Number_Some)



section \<open>Dimensions and sparsity structure\<close>

lemma get_nlp_info_result:
  assumes "load_Index s (Some rn) 0 = Some n0"
    and "load_Index s (Some rm) 0 = Some m0"
    and "load_Index s (Some rj) 0 = Some j0"
    and "load_Index s (Some rh) 0 = Some h0"
    and "load_Style s rs = Some st0"
  shows "get_nlp_info rn rm rj rh rs s =
           Some (True, s[rn := IndexCell 1, rm := IndexCell 0, rj := IndexCell 0,
                         rh := IndexCell 1, rs := StyleCell C_STYLE])"
proof -
  let ?s1 = "s[rn := IndexCell 1]"
  let ?s2 = "?s1[rm := IndexCell 0]"
  let ?s3 = "?s2[rj := IndexCell 0]"
  let ?s4 = "?s3[rh := IndexCell 1]"
  have v: "\<And>t a b w old. load_Index t (Some a) 0 = Some old \<Longrightarrow>
             \<exists>old'. load_Index (t[b := IndexCell w]) (Some a) 0 = Some old'"
    by (auto simp: load_Index_def nth_update split: if_splits cell.splits)
  have 1: "store_Index (Some rn) 0 1 s = Some ?s1"
    using assms(1) by (rule store_Index_Some)
  obtain m1 where "load_Index ?s1 (Some rm) 0 = Some m1"
    using v [OF assms(2)] by blast
  then have 2: "store_Index (Some rm) 0 0 ?s1 = Some ?s2"
    by (rule store_Index_Some)
  obtain j1 where "load_Index ?s2 (Some rj) 0 = Some j1"
    using v [OF assms(3)] v by blast
  then have 3: "store_Index (Some rj) 0 0 ?s2 = Some ?s3"
    by (rule store_Index_Some)
  obtain h1 where "load_Index ?s3 (Some rh) 0 = Some h1"
    using v [OF assms(4)] v by blast
  then have 4: "store_Index (Some rh) 0 1 ?s3 = Some ?s4"
    by (rule store_Index_Some)
  have "rs \<noteq> rn" "rs \<noteq> rm" "rs \<noteq> rj" "rs \<noteq> rh"
    using assms Style_not_Index by blast+
  then have "load_Style ?s4 rs = Some st0"
    using assms(5) by (simp add: load_Style_update_other)
  then have 5: "store_Style rs C_STYLE ?s4 = Some (?s4[rs := StyleCell C_STYLE])"
    by (rule store_Style_Some)
  show ?thesis
    by (simp add: get_nlp_info_def 1 2 3 4 5)
qed

lemma get_nlp_info_loads:
  assumes "distinct [rn, rm, rj, rh]"
    and "load_Index s (Some rn) 0 = Some n0"
    and "load_Index s (Some rm) 0 = Some m0"
    and "load_Index s (Some rj) 0 = Some j0"
    and "load_Index s (Some rh) 0 = Some h0"
    and "load_Style s rs = Some st0"
  defines "s' \<equiv> s[rn := IndexCell 1, rm := IndexCell 0, rj := IndexCell 0,
                         rh := IndexCell 1, rs := StyleCell C_STYLE]"
  shows "load_Index s' (Some rn) 0 = Some 1"
    and "load_Index s' (Some rm) 0 = Some 0"
    and "load_Index s' (Some rj) 0 = Some 0"
    and "load_Index s' (Some rh) 0 = Some 1"
    and "load_Style s' rs = Some C_STYLE"
  using assms
  by (auto simp: load_Index_def load_Style_def nth_update split: if_splits cell.splits)

lemma eval_h_structure_result:
  assumes "load_Index s (Some ir) 0 = Some r0"
    and "load_Index s (Some jc) 0 = Some c0"
  shows "eval_h n x new_x obj_factor m lambda new_lambda nele_hess (Some ir) (Some jc) None s
           = Some (True, s[ir := IndexCell 0, jc := IndexCell 0])"
proof -
  have 1: "store_Index (Some ir) 0 0 s = Some (s[ir := IndexCell 0])"
    using assms(1) by (rule store_Index_Some)
  have "\<exists>old. load_Index (s[ir := IndexCell 0]) (Some jc) 0 = Some old"
    using assms(2) by (auto simp: load_Index_def nth_update split: if_splits cell.splits)
  then have 2: "store_Index (Some jc) 0 0 (s[ir := IndexCell 0]) = Some (s[ir := IndexCell 0, jc := IndexCell 0])"
    by (auto simp: store_Index_Some)
  show ?thesis by (simp add: eval_h_def 1 2)
qed

lemma read_pairs_structure:
  assumes "load_Index s (Some ir) 0 = Some r0"
    and "load_Index s (Some jc) 0 = Some c0"
  shows "read_pairs (s[ir := IndexCell 0, jc := IndexCell 0]) (Some ir) (Some jc) (Suc 0) = Some [(0, 0)]"
  using assms
  by (auto simp: load_Index_def nth_update split: if_splits cell.splits)

text \<open>
  C4. The dimensions \<open>get_nlp_info\<close> reports are \<open>n = 1\<close>, \<open>m = 0\<close>,
  \<open>nnz_jac_g = 0\<close>, \<open>nnz_h_lag = 1\<close> and the 0-based index style, and the other
  callbacks agree with them: the structure call of \<open>eval_h\<close> fills the first
  \<open>nnz_h_lag = 1\<close> entries of \<^verbatim>\<open>iRow\<close> and \<^verbatim>\<open>jCol\<close> and nothing else, the pair
  it writes is \<open>(0, 0)\<close>, inside \<open>[0, n) \<times> [0, n)\<close>, and \<open>eval_jac_g\<close> leaves
  the store as it is, \<open>nnz_jac_g = 0\<close> pairs.
\<close>

theorem dimensions_consistent:
  assumes "distinct [rn, rm, rj, rh]"
    and "load_Index s (Some rn) 0 = Some n0"
    and "load_Index s (Some rm) 0 = Some m0"
    and "load_Index s (Some rj) 0 = Some j0"
    and "load_Index s (Some rh) 0 = Some h0"
    and "load_Style s rs = Some st0"
    and "load_Index t (Some ir) 0 = Some r0"
    and "load_Index t (Some jc) 0 = Some c0"
  shows "\<exists>s' n m nnz_jac_g nnz_h_lag t' pairs.
      get_nlp_info rn rm rj rh rs s = Some (True, s')
    \<and> load_Index s' (Some rn) 0 = Some n \<and> n = 1
    \<and> load_Index s' (Some rm) 0 = Some m \<and> m = 0
    \<and> load_Index s' (Some rj) 0 = Some nnz_jac_g \<and> nnz_jac_g = 0
    \<and> load_Index s' (Some rh) 0 = Some nnz_h_lag \<and> nnz_h_lag = 1
    \<and> load_Style s' rs = Some C_STYLE
    \<and> eval_h hn hx hnew_x obj_factor hm lambda new_lambda nele_hess (Some ir) (Some jc) None t
          = Some (True, t')
    \<and> t' = t[ir := IndexCell 0, jc := IndexCell 0]
    \<and> read_pairs t' (Some ir) (Some jc) (nat nnz_h_lag) = Some pairs
    \<and> length pairs = nat nnz_h_lag
    \<and> pairs = [(0, 0)]
    \<and> (\<forall>(r, c) \<in> set pairs. 0 \<le> r \<and> r < n \<and> 0 \<le> c \<and> c < n)
    \<and> eval_jac_g jn jx jnew_x jm nele_jac jiRow jjCol jvalues u = Some (True, u)"
proof -
  let ?s' = "s[rn := IndexCell 1, rm := IndexCell 0, rj := IndexCell 0,
               rh := IndexCell 1, rs := StyleCell C_STYLE]"
  let ?t' = "t[ir := IndexCell 0, jc := IndexCell 0]"
  have info: "get_nlp_info rn rm rj rh rs s = Some (True, ?s')"
    using assms(2-6) by (rule get_nlp_info_result)
  have n: "load_Index ?s' (Some rn) 0 = Some 1"
    and m: "load_Index ?s' (Some rm) 0 = Some 0"
    and j: "load_Index ?s' (Some rj) 0 = Some 0"
    and h: "load_Index ?s' (Some rh) 0 = Some 1"
    and st: "load_Style ?s' rs = Some C_STYLE"
    using get_nlp_info_loads [OF assms(1-6)] by blast+
  have hess: "eval_h hn hx hnew_x obj_factor hm lambda new_lambda nele_hess (Some ir) (Some jc) None t
      = Some (True, ?t')"
    using assms(7,8) by (rule eval_h_structure_result)
  have pairs: "read_pairs ?t' (Some ir) (Some jc) (nat 1) = Some [(0, 0)]"
    using read_pairs_structure [OF assms(7,8)] by simp
  have jac: "eval_jac_g jn jx jnew_x jm nele_jac jiRow jjCol jvalues u = Some (True, u)"
    by (simp add: eval_jac_g_def)
  show ?thesis
    apply (rule exI [of _ ?s'])
    apply (rule exI [of _ 1])
    apply (rule exI [of _ 0])
    apply (rule exI [of _ 0])
    apply (rule exI [of _ 1])
    apply (rule exI [of _ ?t'])
    apply (rule exI [of _ "[(0, 0)]"])
    apply (simp only: info n m j h st hess pairs jac)
    apply simp
    done
qed

theorem dimensions_consistent_witness:
  "distinct [0, 1, 2, 3::nat]
   \<and> (\<exists>s' n m nnz_jac_g nnz_h_lag t' pairs.
      get_nlp_info 0 1 2 3 4 [IndexCell 7, IndexCell 7, IndexCell 7, IndexCell 7, StyleCell FORTRAN_STYLE]
         = Some (True, s')
    \<and> load_Index s' (Some 0) 0 = Some n \<and> n = 1
    \<and> load_Index s' (Some 1) 0 = Some m \<and> m = 0
    \<and> load_Index s' (Some 2) 0 = Some nnz_jac_g \<and> nnz_jac_g = 0
    \<and> load_Index s' (Some 3) 0 = Some nnz_h_lag \<and> nnz_h_lag = 1
    \<and> load_Style s' 4 = Some C_STYLE
    \<and> eval_h 1 (Some 0) True 1 0 None False 1 (Some 1) (Some 2) None [NumberCell 5, IndexCell 9, IndexCell 9]
          = Some (True, t')
    \<and> t' = [NumberCell 5, IndexCell 0, IndexCell 0]
    \<and> read_pairs t' (Some 1) (Some 2) (nat nnz_h_lag) = Some pairs
    \<and> length pairs = nat nnz_h_lag
    \<and> pairs = [(0, 0)]
    \<and> (\<forall>(r, c) \<in> set pairs. 0 \<le> r \<and> r < n \<and> 0 \<le> c \<and> c < n)
    \<and> eval_jac_g 1 (Some 0) True 0 0 None None None [NumberCell 5] = Some (True, [NumberCell 5]))"
proof -
  let ?s = "[IndexCell 7, IndexCell 7, IndexCell 7, IndexCell 7, StyleCell FORTRAN_STYLE]"
  let ?t = "[NumberCell 5, IndexCell 9, IndexCell 9]"
  have d: "distinct [0, 1, 2, 3::nat]" by simp
  have a: "load_Index ?s (Some 0) 0 = Some 7" "load_Index ?s (Some 1) 0 = Some 7"
    "load_Index ?s (Some 2) 0 = Some 7" "load_Index ?s (Some 3) 0 = Some 7"
    by (simp_all add: load_Index_def)
  have b: "load_Style ?s 4 = Some FORTRAN_STYLE"
    by (simp add: load_Style_def)
  have c: "load_Index ?t (Some 1) 0 = Some 9" "load_Index ?t (Some 2) 0 = Some 9"
    by (simp_all add: load_Index_def)
  show ?thesis
    using d dimensions_consistent [OF d a b c, of 1 "Some 0" True 1 0 None False 1 1 "Some 0" True 0 0 None None None "[NumberCell 5]"]
    by simp
qed

section \<open>Bounds\<close>

lemma get_bounds_info_result:
  assumes "load_Number s (Some l) 0 = Some ol"
    and "load_Number s (Some u) 0 = Some ou"
  shows "get_bounds_info n (Some l) (Some u) m g_l g_u s
           = Some (True, s[l := NumberCell 0, u := NumberCell (10 ^ 19)])"
proof -
  have 1: "store_Number (Some l) 0 0 s = Some (s[l := NumberCell 0])"
    using assms(1) by (rule store_Number_Some)
  have "\<exists>old. load_Number (s[l := NumberCell 0]) (Some u) 0 = Some old"
    using assms(2) by (auto simp: load_Number_def nth_update split: if_splits cell.splits)
  then have 2: "\<And>v. store_Number (Some u) 0 v (s[l := NumberCell 0])
      = Some (s[l := NumberCell 0, u := NumberCell v])"
    by (auto simp: store_Number_Some)
  show ?thesis by (simp add: get_bounds_info_def 1 2)
qed

text \<open>
  C5. \<open>get_bounds_info\<close> writes \<open>x_l[0] = 0\<close> and \<open>x_u[0] = 1e19\<close>, the
  sentinel for no upper bound, one entry each for the \<open>n = 1\<close> variable; the lower
  bound is at most the upper bound; no other cell of the store changes, so no
  constraint bound is written.
\<close>

theorem get_bounds_info_bounds:
  assumes "load_Number s (Some l) 0 = Some ol"
    and "load_Number s (Some u) 0 = Some ou"
    and "l \<noteq> u"
  shows "\<exists>s' lower upper.
      get_bounds_info n (Some l) (Some u) m g_l g_u s = Some (True, s')
    \<and> load_Number s' (Some l) 0 = Some lower \<and> lower = 0
    \<and> load_Number s' (Some u) 0 = Some upper \<and> upper = 10 ^ 19
    \<and> nlp_upper_bound_inf \<le> upper
    \<and> lower \<le> upper
    \<and> length s' = length s
    \<and> (\<forall>a < length s. a \<noteq> l \<and> a \<noteq> u \<longrightarrow> s' ! a = s ! a)"
proof -
  let ?s' = "s[l := NumberCell 0, u := NumberCell (10 ^ 19)]"
  have r: "get_bounds_info n (Some l) (Some u) m g_l g_u s = Some (True, ?s')"
    using assms(1,2) by (rule get_bounds_info_result)
  have lo: "load_Number ?s' (Some l) 0 = Some 0"
    using assms by (auto simp: load_Number_def nth_update split: if_splits cell.splits)
  have hi: "load_Number ?s' (Some u) 0 = Some (10 ^ 19)"
    using assms by (auto simp: load_Number_def nth_update split: if_splits cell.splits)
  have frame: "\<forall>a < length s. a \<noteq> l \<and> a \<noteq> u \<longrightarrow> ?s' ! a = s ! a"
    by (simp add: nth_update)
  show ?thesis
    apply (rule exI [of _ ?s'])
    apply (rule exI [of _ 0])
    apply (rule exI [of _ "10 ^ 19"])
    apply (simp only: r lo hi)
    apply (simp add: nlp_upper_bound_inf_def frame)
    done
qed

theorem get_bounds_info_bounds_witness:
  "load_Number [NumberCell 7, NumberCell 8, NumberCell 9] (Some 0) 0 = Some 7
   \<and> load_Number [NumberCell 7, NumberCell 8, NumberCell 9] (Some 1) 0 = Some 8
   \<and> (0::nat) \<noteq> 1
   \<and> (\<exists>s' lower upper.
      get_bounds_info 1 (Some 0) (Some 1) 0 None None [NumberCell 7, NumberCell 8, NumberCell 9]
        = Some (True, s')
    \<and> load_Number s' (Some 0) 0 = Some lower \<and> lower = 0
    \<and> load_Number s' (Some 1) 0 = Some upper \<and> upper = 10 ^ 19
    \<and> nlp_upper_bound_inf \<le> upper
    \<and> lower \<le> upper
    \<and> length s' = length [NumberCell 7, NumberCell 8, NumberCell 9]
    \<and> (\<forall>a < length [NumberCell 7, NumberCell 8, NumberCell 9].
          a \<noteq> 0 \<and> a \<noteq> 1 \<longrightarrow> s' ! a = [NumberCell 7, NumberCell 8, NumberCell 9] ! a))"
proof -
  let ?s = "[NumberCell 7, NumberCell 8, NumberCell 9]"
  have a: "load_Number ?s (Some 0) 0 = Some 7" by (simp add: load_Number_def)
  have b: "load_Number ?s (Some 1) 0 = Some 8" by (simp add: load_Number_def)
  have c: "(0::nat) \<noteq> 1" by simp
  show ?thesis
    using a b c get_bounds_info_bounds [OF a b c, of 1 0 None None] by simp
qed

section \<open>Starting point\<close>

text \<open>
  C6. With \<^verbatim>\<open>init_x\<close> true \<open>get_starting_point\<close> writes \<open>x[0] = 5\<close>; with
  \<^verbatim>\<open>init_x\<close> false it leaves the store, and so the iterate buffer, unchanged,
  whatever the pointers are. It returns \<^verbatim>\<open>true\<close> in both cases.
\<close>

theorem get_starting_point_init_x:
  assumes "load_Number s (Some a) 0 = Some old"
  shows "get_starting_point n True (Some a) init_z z_L z_U m init_lambda lambda s
           = Some (True, s[a := NumberCell 5])
       \<and> load_Number (s[a := NumberCell 5]) (Some a) 0 = Some 5
       \<and> get_starting_point n False x init_z z_L z_U m init_lambda lambda t = Some (True, t)"
  using assms
  by (simp add: get_starting_point_def store_Number_Some load_Number_update_same)

theorem get_starting_point_init_x_witness:
  "load_Number [NumberCell 0] (Some 0) 0 = Some 0
   \<and> get_starting_point 1 True (Some 0) False None None 0 False None [NumberCell 0]
        = Some (True, [NumberCell 5])
   \<and> load_Number [NumberCell 5] (Some 0) 0 = Some 5
   \<and> get_starting_point 1 False (Some 0) False None None 0 False None [NumberCell 0]
        = Some (True, [NumberCell 0])"
proof -
  have a: "load_Number [NumberCell 0] (Some 0) 0 = Some 0" by (simp add: load_Number_def)
  show ?thesis
    using a get_starting_point_init_x [OF a, of 1 False None None 0 False None "Some 0" "[NumberCell 0]"]
    by simp
qed

section \<open>The Hessian structure over a solve\<close>

lemma load_Index_update_Number:
  assumes "load_Number s (Some v) 0 = Some old"
  shows "load_Index (s[v := NumberCell w]) p i = load_Index s p i"
  using assms
  by (cases p) (auto simp: load_Index_def load_Number_def nth_update split: if_splits cell.splits)

lemma solver_call_layout:
  "layout t' = layout t \<Longrightarrow> solver_call t' ir jc c = solver_call t ir jc c"
  by (simp only: solver_call_def load_Number_layout)

lemma call_eval_h_step:
  assumes "load_Index t (Some ir) 0 \<noteq> None"
    and "load_Index t (Some jc) 0 \<noteq> None"
    and "solver_call t ir jc c"
  shows "\<exists>t'. call_eval_h c t = Some (True, t') \<and> layout t' = layout t
       \<and> (arg_values c = None \<longrightarrow> read_pairs t' (Some ir) (Some jc) (Suc 0) = Some [(0, 0)])
       \<and> (read_pairs t (Some ir) (Some jc) (Suc 0) = Some [(0, 0)]
            \<longrightarrow> read_pairs t' (Some ir) (Some jc) (Suc 0) = Some [(0, 0)])"
proof (cases c)
  case (Eval_h n x new_x obj_factor m lam new_lambda nele_hess iRow jCol vals)
  obtain r0 c0 where v: "load_Index t (Some ir) 0 = Some r0" "load_Index t (Some jc) 0 = Some c0"
    using assms(1,2) by blast
  show ?thesis
  proof (cases vals)
    case None
    then have p: "iRow = Some ir" "jCol = Some jc"
      using assms(3) Eval_h by (simp_all add: solver_call_def)
    let ?t' = "t[ir := IndexCell 0, jc := IndexCell 0]"
    have 1: "call_eval_h c t = Some (True, ?t')"
      using eval_h_structure_result [OF v] Eval_h None p by simp
    have 2: "read_pairs ?t' (Some ir) (Some jc) (Suc 0) = Some [(0, 0)]"
      using v by (rule read_pairs_structure)
    have "ir < length t" "type_of_cell (t ! ir) = Index_type"
      and "jc < length t" "type_of_cell (t ! jc) = Index_type"
      using v by (auto simp: load_Index_def split: if_splits cell.splits)
    then have "layout (t[ir := IndexCell 0]) = layout t"
      and "layout ?t' = layout (t[ir := IndexCell 0])"
      by (simp_all add: layout_update nth_update)
    then have 3: "layout ?t' = layout t"
      by simp
    show ?thesis using 1 2 3 by blast
  next
    case (Some a)
    then obtain old where w: "load_Number t (Some a) 0 = Some old"
      using assms(3) Eval_h by (auto simp: solver_call_def)
    let ?t' = "t[a := NumberCell (obj_factor * 2)]"
    have 1: "call_eval_h c t = Some (True, ?t')"
      using eval_h_values_result [OF w] Eval_h Some by simp
    have 2: "read_pairs ?t' (Some ir) (Some jc) (Suc 0) = read_pairs t (Some ir) (Some jc) (Suc 0)"
      by (simp add: load_Index_update_Number [OF w])
    have "type_of_cell (t ! a) = Number_type" "a < length t"
      using w by (auto simp: load_Number_def split: if_splits cell.splits)
    then have 3: "layout ?t' = layout t"
      by (simp add: layout_update)
    show ?thesis using 1 2 3 Eval_h Some by simp
  qed
qed

lemma eval_h_calls_keep_pattern:
  assumes "load_Index t (Some ir) 0 \<noteq> None"
    and "load_Index t (Some jc) 0 \<noteq> None"
    and "\<forall>c \<in> set cs. solver_call t ir jc c"
  shows "\<exists>t'. eval_h_calls cs t = Some t' \<and> layout t' = layout t
       \<and> (read_pairs t (Some ir) (Some jc) (Suc 0) = Some [(0, 0)]
            \<longrightarrow> read_pairs t' (Some ir) (Some jc) (Suc 0) = Some [(0, 0)])"
  using assms
proof (induction cs arbitrary: t)
  case Nil
  then show ?case by simp
next
  case (Cons c cs)
  have "solver_call t ir jc c"
    using Cons.prems(3) by simp
  then obtain t1 where 1: "call_eval_h c t = Some (True, t1)" "layout t1 = layout t"
    and keep: "read_pairs t (Some ir) (Some jc) (Suc 0) = Some [(0, 0)]
            \<longrightarrow> read_pairs t1 (Some ir) (Some jc) (Suc 0) = Some [(0, 0)]"
    using call_eval_h_step [OF Cons.prems(1,2)] by blast
  have a: "load_Index t1 (Some ir) 0 \<noteq> None"
    using Cons.prems(1) 1(2) by (rule valid_Index_layout)
  have b: "load_Index t1 (Some jc) 0 \<noteq> None"
    using Cons.prems(2) 1(2) by (rule valid_Index_layout)
  have c: "\<forall>c \<in> set cs. solver_call t1 ir jc c"
    using Cons.prems(3) by (simp add: solver_call_layout [OF 1(2)])
  obtain t' where 2: "eval_h_calls cs t1 = Some t'" "layout t' = layout t1"
    and keep': "read_pairs t1 (Some ir) (Some jc) (Suc 0) = Some [(0, 0)]
            \<longrightarrow> read_pairs t' (Some ir) (Some jc) (Suc 0) = Some [(0, 0)]"
    using Cons.IH [OF a b c] by blast
  show ?case using 1 2 keep keep' by simp
qed

text \<open>
  C7. The nonzero pattern of the Hessian is fixed for the life of a solve. In any
  sequence of \<open>eval_h\<close> calls, in either mode and with any iterate and arguments,
  every structure call returns \<^verbatim>\<open>true\<close> and leaves the single pair \<open>(0, 0)\<close>
  in the index buffers, and that pair is still there after all the calls that follow
  it, values calls and further structure calls alike. A values call writes one value,
  \<^verbatim>\<open>values[0]\<close>, the entry of that one pair, and leaves the pair in place.
\<close>

theorem hessian_structure_fixed:
  assumes "load_Index s (Some ir) 0 \<noteq> None"
    and "load_Index s (Some jc) 0 \<noteq> None"
    and "\<forall>c \<in> set (before @ call # after). solver_call s ir jc c"
    and "arg_values call = None"
    and "load_Number s (Some v) 0 \<noteq> None"
  shows "\<exists>s1 s2 s3.
      eval_h_calls before s = Some s1
    \<and> call_eval_h call s1 = Some (True, s2)
    \<and> read_pairs s2 (Some ir) (Some jc) 1 = Some [(0, 0)]
    \<and> eval_h_calls after s2 = Some s3
    \<and> read_pairs s3 (Some ir) (Some jc) 1 = Some [(0, 0)]
    \<and> eval_h n x new_x obj_factor m lam new_lambda nele_hess iRow jCol (Some v) s3
          = Some (True, s3[v := NumberCell (obj_factor * 2)])
    \<and> read_pairs (s3[v := NumberCell (obj_factor * 2)]) (Some ir) (Some jc) 1 = Some [(0, 0)]"
proof -
  have "\<forall>c \<in> set before. solver_call s ir jc c"
    using assms(3) by simp
  then obtain s1 where 1: "eval_h_calls before s = Some s1" "layout s1 = layout s"
    using eval_h_calls_keep_pattern [OF assms(1,2)] by blast
  have a1: "load_Index s1 (Some ir) 0 \<noteq> None"
    using assms(1) 1(2) by (rule valid_Index_layout)
  have b1: "load_Index s1 (Some jc) 0 \<noteq> None"
    using assms(2) 1(2) by (rule valid_Index_layout)
  have "solver_call s1 ir jc call"
    using assms(3) by (simp add: solver_call_layout [OF 1(2)])
  then obtain s2 where 2: "call_eval_h call s1 = Some (True, s2)" "layout s2 = layout s1"
    and p2: "read_pairs s2 (Some ir) (Some jc) (Suc 0) = Some [(0, 0)]"
    using call_eval_h_step [OF a1 b1] assms(4) by blast
  have a2: "load_Index s2 (Some ir) 0 \<noteq> None"
    using a1 2(2) by (rule valid_Index_layout)
  have b2: "load_Index s2 (Some jc) 0 \<noteq> None"
    using b1 2(2) by (rule valid_Index_layout)
  have "layout s2 = layout s"
    using 1(2) 2(2) by simp
  then have "\<forall>c \<in> set after. solver_call s2 ir jc c"
    using assms(3) by (simp add: solver_call_layout [of s2 s])
  then obtain s3 where 3: "eval_h_calls after s2 = Some s3" "layout s3 = layout s2"
    and p3: "read_pairs s3 (Some ir) (Some jc) (Suc 0) = Some [(0, 0)]"
    using eval_h_calls_keep_pattern [OF a2 b2] p2 by blast
  have "layout s3 = layout s"
    using 1(2) 2(2) 3(2) by simp
  with assms(5) have "load_Number s3 (Some v) 0 \<noteq> None"
    by (rule valid_Number_layout)
  then obtain old where w: "load_Number s3 (Some v) 0 = Some old"
    by blast
  have 4: "eval_h n x new_x obj_factor m lam new_lambda nele_hess iRow jCol (Some v) s3
      = Some (True, s3[v := NumberCell (obj_factor * 2)])"
    using w by (rule eval_h_values_result)
  have p4: "read_pairs (s3[v := NumberCell (obj_factor * 2)]) (Some ir) (Some jc) (Suc 0)
      = Some [(0, 0)]"
    using p3 by (simp add: load_Index_update_Number [OF w])
  show ?thesis
    using 1(1) 2(1) p2 3(1) p3 4 p4 by (simp only: One_nat_def) blast
qed

theorem hessian_structure_fixed_witness:
  "load_Index [IndexCell 9, IndexCell 9, NumberCell 0] (Some 0) 0 \<noteq> None
   \<and> load_Index [IndexCell 9, IndexCell 9, NumberCell 0] (Some 1) 0 \<noteq> None
   \<and> solver_call [IndexCell 9, IndexCell 9, NumberCell 0] 0 1
         (Eval_h 1 (Some 2) True 1 0 None True 1 None None (Some 2))
   \<and> solver_call [IndexCell 9, IndexCell 9, NumberCell 0] 0 1
         (Eval_h 1 None False 1 0 None False 1 (Some 0) (Some 1) None)
   \<and> solver_call [IndexCell 9, IndexCell 9, NumberCell 0] 0 1
         (Eval_h 1 (Some 2) True 3 0 None True 1 None None (Some 2))
   \<and> solver_call [IndexCell 9, IndexCell 9, NumberCell 0] 0 1
         (Eval_h 1 (Some 2) False 0 0 None False 1 (Some 0) (Some 1) None)
   \<and> arg_values (Eval_h 1 None False 1 0 None False 1 (Some 0) (Some 1) None) = None
   \<and> load_Number [IndexCell 9, IndexCell 9, NumberCell 0] (Some 2) 0 \<noteq> None
   \<and> (\<exists>s1 s2 s3.
      eval_h_calls [Eval_h 1 (Some 2) True 1 0 None True 1 None None (Some 2)]
          [IndexCell 9, IndexCell 9, NumberCell 0] = Some s1
    \<and> call_eval_h (Eval_h 1 None False 1 0 None False 1 (Some 0) (Some 1) None) s1 = Some (True, s2)
    \<and> read_pairs s2 (Some 0) (Some 1) 1 = Some [(0, 0)]
    \<and> eval_h_calls [Eval_h 1 (Some 2) True 3 0 None True 1 None None (Some 2),
                     Eval_h 1 (Some 2) False 0 0 None False 1 (Some 0) (Some 1) None] s2 = Some s3
    \<and> read_pairs s3 (Some 0) (Some 1) 1 = Some [(0, 0)]
    \<and> eval_h 1 (Some 2) True 7 0 None True 1 None None (Some 2) s3
          = Some (True, s3[2 := NumberCell (7 * 2)])
    \<and> read_pairs (s3[2 := NumberCell (7 * 2)]) (Some 0) (Some 1) 1 = Some [(0, 0)])"
proof -
  let ?s = "[IndexCell 9, IndexCell 9, NumberCell 0]"
  let ?before = "[Eval_h 1 (Some 2) True 1 0 None True 1 None None (Some 2)]"
  let ?call = "Eval_h 1 None False 1 0 None False 1 (Some 0) (Some 1) None"
  let ?after = "[Eval_h 1 (Some 2) True 3 0 None True 1 None None (Some 2),
                 Eval_h 1 (Some 2) False 0 0 None False 1 (Some 0) (Some 1) None]"
  have a: "load_Index ?s (Some 0) 0 \<noteq> None" by (simp add: load_Index_def)
  have b: "load_Index ?s (Some 1) 0 \<noteq> None" by (simp add: load_Index_def)
  have c: "\<forall>c \<in> set (?before @ ?call # ?after). solver_call ?s 0 1 c"
    by (simp add: solver_call_def load_Number_def)
  have d: "arg_values ?call = None" by simp
  have v: "load_Number ?s (Some 2) 0 \<noteq> None" by (simp add: load_Number_def)
  have e: "\<exists>s1 s2 s3.
      eval_h_calls ?before ?s = Some s1
    \<and> call_eval_h ?call s1 = Some (True, s2)
    \<and> read_pairs s2 (Some 0) (Some 1) 1 = Some [(0, 0)]
    \<and> eval_h_calls ?after s2 = Some s3
    \<and> read_pairs s3 (Some 0) (Some 1) 1 = Some [(0, 0)]
    \<and> eval_h 1 (Some 2) True 7 0 None True 1 None None (Some 2) s3
          = Some (True, s3[2 := NumberCell (7 * 2)])
    \<and> read_pairs (s3[2 := NumberCell (7 * 2)]) (Some 0) (Some 1) 1 = Some [(0, 0)]"
    using a b c d v by (rule hessian_structure_fixed)
  have c': "solver_call ?s 0 1 (Eval_h 1 (Some 2) True 1 0 None True 1 None None (Some 2))"
    "solver_call ?s 0 1 ?call"
    "solver_call ?s 0 1 (Eval_h 1 (Some 2) True 3 0 None True 1 None None (Some 2))"
    "solver_call ?s 0 1 (Eval_h 1 (Some 2) False 0 0 None False 1 (Some 0) (Some 1) None)"
    using c by simp_all
  show ?thesis
    using a b c' d v e by (intro conjI)
qed

section \<open>Purity of the evaluations\<close>

text \<open>
  C8. \<open>eval_f\<close> and \<open>eval_grad_f\<close> are functions of the iterate alone. Two calls
  that find the same value in \<^verbatim>\<open>x[0]\<close> write the same results, whatever
  \<^verbatim>\<open>n\<close> and \<^verbatim>\<open>new_x\<close> are, wherever the buffers lie and whatever else the
  two stores hold, that is whatever calls came before; and each call changes its
  output cell only.
\<close>

theorem eval_pure:
  assumes "load_Number s1 x1 0 = Some t"
    and "load_Number s2 x2 0 = Some t"
    and "load_Number s1 (Some o1) 0 = Some old1"
    and "load_Number s2 (Some o2) 0 = Some old2"
    and "load_Number s1 (Some g1) 0 = Some oldg1"
    and "load_Number s2 (Some g2) 0 = Some oldg2"
  shows "\<exists>f g.
      eval_f n1 x1 new_x1 o1 s1 = Some (True, s1[o1 := NumberCell f])
    \<and> eval_f n2 x2 new_x2 o2 s2 = Some (True, s2[o2 := NumberCell f])
    \<and> eval_grad_f n1 x1 new_x1 (Some g1) s1 = Some (True, s1[g1 := NumberCell g])
    \<and> eval_grad_f n2 x2 new_x2 (Some g2) s2 = Some (True, s2[g2 := NumberCell g])"
proof -
  have f1: "eval_f n1 x1 new_x1 o1 s1 = Some (True, s1[o1 := NumberCell (objective t)])"
    using assms(1,3) by (rule eval_f_computes_objective)
  have f2: "eval_f n2 x2 new_x2 o2 s2 = Some (True, s2[o2 := NumberCell (objective t)])"
    using assms(2,4) by (rule eval_f_computes_objective)
  have g1: "eval_grad_f n1 x1 new_x1 (Some g1) s1 = Some (True, s1[g1 := NumberCell (2 * (t - 2))])"
    using assms(1,5) by (rule eval_grad_f_result)
  have g2: "eval_grad_f n2 x2 new_x2 (Some g2) s2 = Some (True, s2[g2 := NumberCell (2 * (t - 2))])"
    using assms(2,6) by (rule eval_grad_f_result)
  show ?thesis
    apply (rule exI [of _ "objective t"])
    apply (rule exI [of _ "2 * (t - 2)"])
    apply (intro conjI)
       apply (rule f1)
      apply (rule f2)
     apply (rule g1)
    apply (rule g2)
    done
qed

theorem eval_pure_witness:
  "load_Number [NumberCell 5, NumberCell 0, NumberCell 0] (Some 0) 0 = Some 5
   \<and> load_Number [NumberCell 1, NumberCell 1, IndexCell 3, NumberCell 5] (Some 3) 0 = Some 5
   \<and> load_Number [NumberCell 5, NumberCell 0, NumberCell 0] (Some 1) 0 = Some 0
   \<and> load_Number [NumberCell 1, NumberCell 1, IndexCell 3, NumberCell 5] (Some 0) 0 = Some 1
   \<and> load_Number [NumberCell 5, NumberCell 0, NumberCell 0] (Some 2) 0 = Some 0
   \<and> load_Number [NumberCell 1, NumberCell 1, IndexCell 3, NumberCell 5] (Some 1) 0 = Some 1
   \<and> (\<exists>f g.
      eval_f 1 (Some 0) True 1 [NumberCell 5, NumberCell 0, NumberCell 0]
        = Some (True, [NumberCell 5, NumberCell f, NumberCell 0])
    \<and> eval_f 7 (Some 3) False 0 [NumberCell 1, NumberCell 1, IndexCell 3, NumberCell 5]
        = Some (True, [NumberCell f, NumberCell 1, IndexCell 3, NumberCell 5])
    \<and> eval_grad_f 1 (Some 0) True (Some 2) [NumberCell 5, NumberCell 0, NumberCell 0]
        = Some (True, [NumberCell 5, NumberCell 0, NumberCell g])
    \<and> eval_grad_f 7 (Some 3) False (Some 1) [NumberCell 1, NumberCell 1, IndexCell 3, NumberCell 5]
        = Some (True, [NumberCell 1, NumberCell g, IndexCell 3, NumberCell 5]))"
proof -
  let ?s1 = "[NumberCell 5, NumberCell 0, NumberCell 0]"
  let ?s2 = "[NumberCell 1, NumberCell 1, IndexCell 3, NumberCell 5]"
  have a: "load_Number ?s1 (Some 0) 0 = Some 5" by (simp add: load_Number_def)
  have b: "load_Number ?s2 (Some 3) 0 = Some 5" by (simp add: load_Number_def)
  have c: "load_Number ?s1 (Some 1) 0 = Some 0" by (simp add: load_Number_def)
  have d: "load_Number ?s2 (Some 0) 0 = Some 1" by (simp add: load_Number_def)
  have e: "load_Number ?s1 (Some 2) 0 = Some 0" by (simp add: load_Number_def)
  have f: "load_Number ?s2 (Some 1) 0 = Some 1" by (simp add: load_Number_def)
  show ?thesis
    using a b c d e f eval_pure [OF a b c d e f, of 1 True 7 False] by simp
qed

section \<open>The exit code\<close>

text \<open>
  C9. \<open>main\<close> returns 0 exactly when initialization succeeded and the solve call
  returned \<^verbatim>\<open>Solve_Succeeded\<close>, and 1 otherwise: 1 for every other status of the
  solve, and 1 without calling \<^verbatim>\<open>OptimizeTNLP\<close> when initialization failed.
  After a successful initialization the solve is called once.
\<close>

theorem main_exit_code:
  "(fst (main i r) = 0 \<longleftrightarrow> i = Solve_Succeeded \<and> r = Solve_Succeeded)
   \<and> (fst (main i r) = 0 \<or> fst (main i r) = 1)
   \<and> (i = Solve_Succeeded \<longrightarrow> r \<noteq> Solve_Succeeded \<longrightarrow> fst (main i r) = 1)
   \<and> (i = Solve_Succeeded \<longrightarrow> count_list (snd (main i r)) OptimizeTNLP = 1)
   \<and> (i \<noteq> Solve_Succeeded \<longrightarrow> fst (main i r) = 1 \<and> OptimizeTNLP \<notin> set (snd (main i r)))"
  by (simp add: main_def Let_def)

theorem main_exit_code_witness:
  "fst (main Solve_Succeeded Solve_Succeeded) = 0
   \<and> fst (main Solve_Succeeded (Other_Status 2)) = 1
   \<and> count_list (snd (main Solve_Succeeded (Other_Status 2))) OptimizeTNLP = 1
   \<and> fst (main (Other_Status (- 12)) Solve_Succeeded) = 1
   \<and> OptimizeTNLP \<notin> set (snd (main (Other_Status (- 12)) Solve_Succeeded))"
  using main_exit_code [of Solve_Succeeded Solve_Succeeded]
    main_exit_code [of Solve_Succeeded "Other_Status 2"]
    main_exit_code [of "Other_Status (- 12)" Solve_Succeeded]
  by simp

section \<open>No callback signals failure\<close>

lemma get_nlp_info_returns:
  assumes "load_Index s (Some rn) 0 \<noteq> None"
    and "load_Index s (Some rm) 0 \<noteq> None"
    and "load_Index s (Some rj) 0 \<noteq> None"
    and "load_Index s (Some rh) 0 \<noteq> None"
    and "load_Style s rs \<noteq> None"
  shows "\<exists>s'. get_nlp_info rn rm rj rh rs s = Some (True, s')"
proof -
  obtain s1 where 1: "store_Index (Some rn) 0 1 s = Some s1" "layout s1 = layout s"
    using store_Index_valid [OF assms(1)] by blast
  have "load_Index s1 (Some rm) 0 \<noteq> None"
    using assms(2) 1(2) by (rule valid_Index_layout)
  then obtain s2 where 2: "store_Index (Some rm) 0 0 s1 = Some s2" "layout s2 = layout s1"
    using store_Index_valid by blast
  have "load_Index s2 (Some rj) 0 \<noteq> None"
    using assms(3) by (rule valid_Index_layout) (simp add: 1(2) 2(2))
  then obtain s3 where 3: "store_Index (Some rj) 0 0 s2 = Some s3" "layout s3 = layout s2"
    using store_Index_valid by blast
  have "load_Index s3 (Some rh) 0 \<noteq> None"
    using assms(4) by (rule valid_Index_layout) (simp add: 1(2) 2(2) 3(2))
  then obtain s4 where 4: "store_Index (Some rh) 0 1 s3 = Some s4" "layout s4 = layout s3"
    using store_Index_valid by blast
  have "load_Style s4 rs \<noteq> None"
    using assms(5) by (rule valid_Style_layout) (simp add: 1(2) 2(2) 3(2) 4(2))
  then obtain s5 where 5: "store_Style rs C_STYLE s4 = Some s5"
    using store_Style_valid by blast
  show ?thesis
    by (simp add: get_nlp_info_def 1 2 3 4 5)
qed

lemma get_bounds_info_returns:
  assumes "load_Number s x_l 0 \<noteq> None"
    and "load_Number s x_u 0 \<noteq> None"
  shows "\<exists>s'. get_bounds_info n x_l x_u m g_l g_u s = Some (True, s')"
proof -
  obtain s1 where 1: "store_Number x_l 0 0 s = Some s1" "layout s1 = layout s"
    using store_Number_valid [OF assms(1)] by blast
  have "load_Number s1 x_u 0 \<noteq> None"
    using assms(2) 1(2) by (rule valid_Number_layout)
  then obtain s2 where 2: "\<And>v. \<exists>s2. store_Number x_u 0 v s1 = Some s2"
    using store_Number_valid by blast
  obtain s2 where "store_Number x_u 0 (10 ^ 19) s1 = Some s2"
    using 2 by blast
  then show ?thesis
    unfolding get_bounds_info_def 1 by simp
qed

lemma get_starting_point_returns:
  assumes "init_x \<longrightarrow> load_Number s x 0 \<noteq> None"
  shows "\<exists>s'. get_starting_point n init_x x init_z z_L z_U m init_lambda lambda s = Some (True, s')"
proof (cases init_x)
  case True
  then obtain s1 where "store_Number x 0 5 s = Some s1"
    using assms store_Number_valid by blast
  with True show ?thesis by (simp add: get_starting_point_def)
next
  case False
  then show ?thesis by (simp add: get_starting_point_def)
qed

lemma eval_f_returns:
  assumes "load_Number s x 0 \<noteq> None"
    and "load_Number s (Some obj_value) 0 \<noteq> None"
  shows "\<exists>s'. eval_f n x new_x obj_value s = Some (True, s')"
  using assms eval_f_result by blast

lemma eval_grad_f_returns:
  assumes "load_Number s x 0 \<noteq> None"
    and "load_Number s grad_f 0 \<noteq> None"
  shows "\<exists>s'. eval_grad_f n x new_x grad_f s = Some (True, s')"
proof -
  obtain a where a: "load_Number s x 0 = Some a"
    using assms(1) by blast
  obtain s1 where "store_Number grad_f 0 (2 * (a - 2)) s = Some s1"
    using store_Number_valid [OF assms(2)] by blast
  with a show ?thesis by (simp add: eval_grad_f_def)
qed

lemma eval_h_returns:
  assumes "if values = None
           then load_Index s iRow 0 \<noteq> None \<and> load_Index s jCol 0 \<noteq> None
           else load_Number s values 0 \<noteq> None"
  shows "\<exists>s'. eval_h n x new_x obj_factor m lambda new_lambda nele_hess iRow jCol values s
                = Some (True, s') \<and> layout s' = layout s"
proof (cases "values = None")
  case True
  then have v: "load_Index s iRow 0 \<noteq> None" "load_Index s jCol 0 \<noteq> None"
    using assms by simp_all
  obtain s1 where 1: "store_Index iRow 0 0 s = Some s1" "layout s1 = layout s"
    using store_Index_valid [OF v(1)] by blast
  have "load_Index s1 jCol 0 \<noteq> None"
    using v(2) 1(2) by (rule valid_Index_layout)
  then obtain s2 where 2: "store_Index jCol 0 0 s1 = Some s2" "layout s2 = layout s1"
    using store_Index_valid by blast
  show ?thesis using True 1 2 by (simp add: eval_h_def)
next
  case False
  then have "load_Number s values 0 \<noteq> None"
    using assms by simp
  then obtain s1 where "store_Number values 0 (obj_factor * 2) s = Some s1" "layout s1 = layout s"
    using store_Number_valid by blast
  with False show ?thesis by (auto simp: eval_h_def)
qed

lemma callbacks_never_false:
  "returned (get_nlp_info rn rm rj rh rs s) \<noteq> Some False"
  "returned (get_bounds_info n x_l x_u m g_l g_u s) \<noteq> Some False"
  "returned (get_starting_point n init_x x init_z z_L z_U m init_lambda lambda s) \<noteq> Some False"
  "returned (eval_f n x new_x obj_value s) \<noteq> Some False"
  "returned (eval_grad_f n x new_x grad_f s) \<noteq> Some False"
  "returned (eval_g n x new_x m g s) \<noteq> Some False"
  "returned (eval_jac_g n x new_x m nele_jac iRow jCol values s) \<noteq> Some False"
  "returned (eval_h n x new_x obj_factor m lambda new_lambda nele_hess iRow jCol values s) \<noteq> Some False"
  by (auto simp: returned_def get_nlp_info_def get_bounds_info_def get_starting_point_def
        eval_f_def eval_grad_f_def eval_g_def eval_jac_g_def eval_h_def
        bind_eq_Some_conv split: if_splits)

text \<open>
  C10. Every callback returns \<^verbatim>\<open>true\<close>: given valid buffers where it dereferences
  them, each of the eight returns \<^verbatim>\<open>true\<close> (\<open>eval_g\<close> and \<open>eval_jac_g\<close>
  dereference nothing), and on no input at all does any of them return
  \<^verbatim>\<open>false\<close>.
\<close>

theorem callbacks_return_true:
  assumes "load_Index s (Some rn) 0 \<noteq> None"
    and "load_Index s (Some rm) 0 \<noteq> None"
    and "load_Index s (Some rj) 0 \<noteq> None"
    and "load_Index s (Some rh) 0 \<noteq> None"
    and "load_Style s rs \<noteq> None"
    and "load_Number s x_l 0 \<noteq> None"
    and "load_Number s x_u 0 \<noteq> None"
    and "init_x \<longrightarrow> load_Number s x0 0 \<noteq> None"
    and "load_Number s x 0 \<noteq> None"
    and "load_Number s (Some obj_value) 0 \<noteq> None"
    and "load_Number s grad_f 0 \<noteq> None"
    and "if vals = None
         then load_Index s iRow 0 \<noteq> None \<and> load_Index s jCol 0 \<noteq> None
         else load_Number s vals 0 \<noteq> None"
  shows "returned (get_nlp_info rn rm rj rh rs s) = Some True
       \<and> returned (get_bounds_info n1 x_l x_u m1 g_l g_u s) = Some True
       \<and> returned (get_starting_point n2 init_x x0 init_z z_L z_U m2 init_lambda lam2 s) = Some True
       \<and> returned (eval_f n3 x new_x3 obj_value s) = Some True
       \<and> returned (eval_grad_f n4 x new_x4 grad_f s) = Some True
       \<and> returned (eval_g n5 x5 new_x5 m5 g t) = Some True
       \<and> returned (eval_jac_g n6 x6 new_x6 m6 nele_jac jiRow jjCol jvals t) = Some True
       \<and> returned (eval_h n7 x7 new_x7 obj_factor m7 lam7 new_lambda nele_hess iRow jCol vals s) = Some True
       \<and> returned (get_nlp_info an am aj ah as t) \<noteq> Some False
       \<and> returned (get_bounds_info n1 ax_l ax_u m1 g_l g_u t) \<noteq> Some False
       \<and> returned (get_starting_point n2 ainit_x ax0 init_z z_L z_U m2 init_lambda lam2 t) \<noteq> Some False
       \<and> returned (eval_f n3 ax new_x3 aobj_value t) \<noteq> Some False
       \<and> returned (eval_grad_f n4 ax new_x4 agrad_f t) \<noteq> Some False
       \<and> returned (eval_h n7 x7 new_x7 obj_factor m7 lam7 new_lambda nele_hess aiRow ajCol avals t) \<noteq> Some False"
proof (intro conjI)
  show "returned (get_nlp_info rn rm rj rh rs s) = Some True"
    using get_nlp_info_returns [OF assms(1-5)] by (auto simp: returned_def)
  show "returned (get_bounds_info n1 x_l x_u m1 g_l g_u s) = Some True"
    using get_bounds_info_returns [OF assms(6,7), of n1 m1 g_l g_u] by (auto simp: returned_def)
  show "returned (get_starting_point n2 init_x x0 init_z z_L z_U m2 init_lambda lam2 s) = Some True"
    using get_starting_point_returns [OF assms(8), of n2 init_z z_L z_U m2 init_lambda lam2]
    by (auto simp: returned_def)
  show "returned (eval_f n3 x new_x3 obj_value s) = Some True"
    using eval_f_returns [OF assms(9,10), of n3 new_x3] by (auto simp: returned_def)
  show "returned (eval_grad_f n4 x new_x4 grad_f s) = Some True"
    using eval_grad_f_returns [OF assms(9,11), of n4 new_x4] by (auto simp: returned_def)
  show "returned (eval_g n5 x5 new_x5 m5 g t) = Some True"
    by (simp add: returned_def eval_g_def)
  show "returned (eval_jac_g n6 x6 new_x6 m6 nele_jac jiRow jjCol jvals t) = Some True"
    by (simp add: returned_def eval_jac_g_def)
  show "returned (eval_h n7 x7 new_x7 obj_factor m7 lam7 new_lambda nele_hess iRow jCol vals s) = Some True"
    using eval_h_returns [OF assms(12), of n7 x7 new_x7 obj_factor m7 lam7 new_lambda nele_hess]
    by (auto simp: returned_def)
qed (rule callbacks_never_false)+

theorem callbacks_return_true_witness:
  "load_Index [IndexCell 7, IndexCell 7, IndexCell 7, IndexCell 7, StyleCell FORTRAN_STYLE,
       NumberCell 1, NumberCell 1, NumberCell 3, NumberCell 0, NumberCell 0,
       IndexCell 9, IndexCell 9] (Some 0) 0 \<noteq> None
   \<and> load_Style [IndexCell 7, IndexCell 7, IndexCell 7, IndexCell 7, StyleCell FORTRAN_STYLE,
       NumberCell 1, NumberCell 1, NumberCell 3, NumberCell 0, NumberCell 0,
       IndexCell 9, IndexCell 9] 4 \<noteq> None
   \<and> load_Number [IndexCell 7, IndexCell 7, IndexCell 7, IndexCell 7, StyleCell FORTRAN_STYLE,
       NumberCell 1, NumberCell 1, NumberCell 3, NumberCell 0, NumberCell 0,
       IndexCell 9, IndexCell 9] (Some 7) 0 \<noteq> None
   \<and> returned (get_nlp_info 0 1 2 3 4
       [IndexCell 7, IndexCell 7, IndexCell 7, IndexCell 7, StyleCell FORTRAN_STYLE,
        NumberCell 1, NumberCell 1, NumberCell 3, NumberCell 0, NumberCell 0,
        IndexCell 9, IndexCell 9]) = Some True
   \<and> returned (get_bounds_info 1 (Some 5) (Some 6) 0 None None
       [IndexCell 7, IndexCell 7, IndexCell 7, IndexCell 7, StyleCell FORTRAN_STYLE,
        NumberCell 1, NumberCell 1, NumberCell 3, NumberCell 0, NumberCell 0,
        IndexCell 9, IndexCell 9]) = Some True
   \<and> returned (get_starting_point 1 True (Some 7) False None None 0 False None
       [IndexCell 7, IndexCell 7, IndexCell 7, IndexCell 7, StyleCell FORTRAN_STYLE,
        NumberCell 1, NumberCell 1, NumberCell 3, NumberCell 0, NumberCell 0,
        IndexCell 9, IndexCell 9]) = Some True
   \<and> returned (eval_f 1 (Some 7) True 8
       [IndexCell 7, IndexCell 7, IndexCell 7, IndexCell 7, StyleCell FORTRAN_STYLE,
        NumberCell 1, NumberCell 1, NumberCell 3, NumberCell 0, NumberCell 0,
        IndexCell 9, IndexCell 9]) = Some True
   \<and> returned (eval_grad_f 1 (Some 7) True (Some 9)
       [IndexCell 7, IndexCell 7, IndexCell 7, IndexCell 7, StyleCell FORTRAN_STYLE,
        NumberCell 1, NumberCell 1, NumberCell 3, NumberCell 0, NumberCell 0,
        IndexCell 9, IndexCell 9]) = Some True
   \<and> returned (eval_h 1 (Some 7) True 1 0 None True 1 (Some 10) (Some 11) None
       [IndexCell 7, IndexCell 7, IndexCell 7, IndexCell 7, StyleCell FORTRAN_STYLE,
        NumberCell 1, NumberCell 1, NumberCell 3, NumberCell 0, NumberCell 0,
        IndexCell 9, IndexCell 9]) = Some True"
proof -
  let ?s = "[IndexCell 7, IndexCell 7, IndexCell 7, IndexCell 7, StyleCell FORTRAN_STYLE,
       NumberCell 1, NumberCell 1, NumberCell 3, NumberCell 0, NumberCell 0,
       IndexCell 9, IndexCell 9]"
  have i: "load_Index ?s (Some 0) 0 \<noteq> None" "load_Index ?s (Some 1) 0 \<noteq> None"
    "load_Index ?s (Some 2) 0 \<noteq> None" "load_Index ?s (Some 3) 0 \<noteq> None"
    by (simp_all add: load_Index_def)
  have st: "load_Style ?s 4 \<noteq> None"
    by (simp add: load_Style_def)
  have b: "load_Number ?s (Some 5) 0 \<noteq> None" "load_Number ?s (Some 6) 0 \<noteq> None"
    by (simp_all add: load_Number_def)
  have sp: "True \<longrightarrow> load_Number ?s (Some 7) 0 \<noteq> None"
    by (simp add: load_Number_def)
  have x: "load_Number ?s (Some 7) 0 \<noteq> None" "load_Number ?s (Some 8) 0 \<noteq> None"
    "load_Number ?s (Some 9) 0 \<noteq> None"
    by (simp_all add: load_Number_def)
  have h: "if (None::ptr) = None
         then load_Index ?s (Some 10) 0 \<noteq> None \<and> load_Index ?s (Some 11) 0 \<noteq> None
         else load_Number ?s None 0 \<noteq> None"
    by (simp add: load_Index_def)
  note r = callbacks_return_true [OF i st b sp x h,
      where ?n1.0 = 1 and ?m1.0 = 0 and g_l = None and g_u = None
        and ?n2.0 = 1 and init_z = False and z_L = None and z_U = None and ?m2.0 = 0
        and init_lambda = False and ?lam2.0 = None
        and ?n3.0 = 1 and ?new_x3.0 = True and ?n4.0 = 1 and ?new_x4.0 = True
        and ?n7.0 = 1 and ?x7.0 = "Some 7" and ?new_x7.0 = True and obj_factor = 1 and ?m7.0 = 0
        and ?lam7.0 = None and new_lambda = True and nele_hess = 1]
  show ?thesis
    apply (intro conjI)
            apply (rule i(1))
           apply (rule st)
          apply (rule x(1))
         apply (rule r [THEN conjunct1])
        apply (rule r [THEN conjunct2, THEN conjunct1])
       apply (rule r [THEN conjunct2, THEN conjunct2, THEN conjunct1])
      apply (rule r [THEN conjunct2, THEN conjunct2, THEN conjunct2, THEN conjunct1])
     apply (rule r [THEN conjunct2, THEN conjunct2, THEN conjunct2, THEN conjunct2, THEN conjunct1])
    apply (rule r [THEN conjunct2, THEN conjunct2, THEN conjunct2, THEN conjunct2, THEN conjunct2, THEN conjunct2, THEN conjunct2, THEN conjunct1])
    done
qed

end
